theory Spec2Isabelle
  imports Main
begin

section \<open>Byte streams and buffered line reads\<close>

text \<open>
  The chat program (\<^verbatim>\<open>src/chat.go\<close>) reads lines with \<^verbatim>\<open>bufio.Reader.ReadString\<close>,
  once on the peer stream (\<^verbatim>\<open>readData\<close>) and once on standard input (\<^verbatim>\<open>writeData\<close>).
  A stream is what its reader will meet: a finite list of events, each a byte or a failure
  of the underlying read, and an ending that says what every read meets once the events are
  used up: the same error for ever (\<open>Sticky\<close>, with \<open>EOF\<close> for a closed stream), or
  nothing at all (\<open>Silent\<close>: the read blocks for ever).
\<close>

datatype io_error = EOF | ErrOther string

datatype event = Byte char | Fail io_error

datatype ending = Sticky io_error | Silent

definition newline :: char where
  "newline = CHR 0x0A"

definition escape :: char where
  "escape = CHR 0x1B"

text \<open>
  The result of one \<^verbatim>\<open>ReadString(delim)\<close>: the string returned, the error returned
  (\<open>None\<close> is Go's \<^verbatim>\<open>nil\<close>) and the events left on the stream; or \<open>Pending\<close> when
  the call never returns.
\<close>

datatype read_result = Got string "io_error option" "event list" | Pending

text \<open>
  \<^verbatim>\<open>ReadString\<close> reads until the first occurrence of the delimiter and returns the data up
  to and including it; if it meets an error before a delimiter it returns the data read
  before the error and the error itself. The last argument is the data read so far.
\<close>

fun ReadString :: "char \<Rightarrow> ending \<Rightarrow> event list \<Rightarrow> string \<Rightarrow> read_result" where
  "ReadString delim (Sticky e) [] acc = Got acc (Some e) []"
| "ReadString delim Silent [] acc = Pending"
| "ReadString delim en (Byte c # es) acc =
     (if c = delim then Got (acc @ [c]) None es else ReadString delim en es (acc @ [c]))"
| "ReadString delim en (Fail e # es) acc = Got acc (Some e) es"

section \<open>Effects of the two loops\<close>

text \<open>
  What a loop does is recorded as the list of its effects, in order: a console write
  (\<^verbatim>\<open>fmt.Print\<close>, \<^verbatim>\<open>fmt.Printf\<close>, \<^verbatim>\<open>fmt.Println\<close>), the result of a read on the peer
  stream, the result of a read on standard input, and the two calls on the buffered
  writer of the peer stream.
\<close>

datatype effect =
    Print string
  | Recv string "io_error option"
  | Stdin string "io_error option"
  | WriteString string
  | Flush

text \<open>
  How a loop ends: \<^verbatim>\<open>readData\<close> returns or stays blocked in a read; \<^verbatim>\<open>writeData\<close>
  panics (which ends the whole process) or stays blocked in a read.
\<close>

datatype loop_outcome = Returned | Blocked | Panicked io_error

definition after :: "'a list \<Rightarrow> 'a list \<times> 'b \<Rightarrow> 'a list \<times> 'b" where
  "after pre r = (pre @ fst r, snd r)"

definition green :: string where
  "green = escape # ''[32m''"

definition reset_prompt :: string where
  "reset_prompt = escape # ''[0m$> ''"

definition prompt :: string where
  "prompt = ''$> ''"

definition stdin_diagnostic :: string where
  "stdin_diagnostic = ''!! Error reading input from stdin'' @ [newline]"

lemma ReadString_rest_le:
  "ReadString d en es acc = Got s err rest \<Longrightarrow> length rest \<le> length es"
  by (induction d en es acc rule: ReadString.induct) (auto split: if_splits)

lemma ReadString_rest_less:
  "ReadString d en es acc = Got s err rest \<Longrightarrow> s \<noteq> acc \<Longrightarrow> length rest < length es"
proof (induction d en es acc rule: ReadString.induct)
  case (3 delim en c es acc)
  show ?case
  proof (cases "c = delim")
    case True
    with 3 show ?thesis by auto
  next
    case False
    with 3 have "ReadString delim en es (acc @ [c]) = Got s err rest" by simp
    then have "length rest \<le> length es" by (rule ReadString_rest_le)
    then show ?thesis by simp
  qed
qed auto

lemma ReadString_nil_ok:
  "ReadString d en es acc = Got s None rest \<Longrightarrow> length rest < length es"
  by (induction d en es acc rule: ReadString.induct) (auto split: if_splits)

text \<open>
  \<^verbatim>\<open>readData\<close> (lines 37 to 52): read a line from the peer stream, ignoring the error;
  return on the empty string; print every string but the bare terminator, in green and
  followed by the prompt; read again.
\<close>

function readData :: "ending \<Rightarrow> event list \<Rightarrow> effect list \<times> loop_outcome" where
  "readData en es =
     (case ReadString newline en es [] of
        Pending \<Rightarrow> ([], Blocked)
      | Got str err rest \<Rightarrow>
          (if str = [] then ([Recv str err], Returned)
           else if str \<noteq> [newline]
             then after [Recv str err, Print (green @ str @ reset_prompt)] (readData en rest)
             else after [Recv str err] (readData en rest)))"
  by pat_completeness auto
termination
  by (relation "measure (\<lambda>(en, es). length es)") (auto dest: ReadString_rest_less)

text \<open>
  \<^verbatim>\<open>writeData\<close> (lines 55 to 77): print the prompt, read a line from standard input; on an
  error print the diagnostic and panic; otherwise write the line and one more line feed
  (\<^verbatim>\<open>fmt.Sprintf("%s\n", sendData)\<close>) to the buffered writer and flush it; loop for ever.
  The results of \<^verbatim>\<open>WriteString\<close> and \<^verbatim>\<open>Flush\<close> are not looked at.
\<close>

function writeData :: "ending \<Rightarrow> event list \<Rightarrow> effect list \<times> loop_outcome" where
  "writeData en stdin =
     (case ReadString newline en stdin [] of
        Pending \<Rightarrow> ([Print prompt], Blocked)
      | Got sendData err rest \<Rightarrow>
          (case err of
             Some e \<Rightarrow> ([Print prompt, Stdin sendData err, Print stdin_diagnostic], Panicked e)
           | None \<Rightarrow>
               after [Print prompt, Stdin sendData err, WriteString (sendData @ [newline]), Flush]
                 (writeData en rest)))"
  by pat_completeness auto
termination
  by (relation "measure (\<lambda>(en, stdin). length stdin)") (auto dest: ReadString_nil_ok)

section \<open>Observations on a list of effects\<close>

text \<open>
  What was written to the console, the lines that standard input delivered without an
  error, the calls made on the buffered writer, and the bytes that reached the peer
  stream: \<^verbatim>\<open>WriteString\<close> appends to the writer's buffer and \<^verbatim>\<open>Flush\<close> hands the
  buffer to the stream, which is taken to accept it.
\<close>

fun printed :: "effect list \<Rightarrow> string list" where
  "printed [] = []"
| "printed (Print s # tr) = s # printed tr"
| "printed (x # tr) = printed tr"

fun stdin_lines :: "effect list \<Rightarrow> string list" where
  "stdin_lines [] = []"
| "stdin_lines (Stdin s None # tr) = s # stdin_lines tr"
| "stdin_lines (x # tr) = stdin_lines tr"

fun rw_calls :: "effect list \<Rightarrow> effect list" where
  "rw_calls [] = []"
| "rw_calls (WriteString s # tr) = WriteString s # rw_calls tr"
| "rw_calls (Flush # tr) = Flush # rw_calls tr"
| "rw_calls (x # tr) = rw_calls tr"

fun transmitted :: "string \<Rightarrow> effect list \<Rightarrow> string" where
  "transmitted buf [] = []"
| "transmitted buf (WriteString s # tr) = transmitted (buf @ s) tr"
| "transmitted buf (Flush # tr) = buf @ transmitted [] tr"
| "transmitted buf (x # tr) = transmitted buf tr"

text \<open>
  The same stream, ending and effects with every error replaced by \<open>EOF\<close>: what a run
  would have met had each failure been the end of the stream.
\<close>

fun as_EOF_event :: "event \<Rightarrow> event" where
  "as_EOF_event (Byte c) = Byte c"
| "as_EOF_event (Fail e) = Fail EOF"

fun as_EOF_ending :: "ending \<Rightarrow> ending" where
  "as_EOF_ending (Sticky e) = Sticky EOF"
| "as_EOF_ending Silent = Silent"

fun as_EOF_effect :: "effect \<Rightarrow> effect" where
  "as_EOF_effect (Recv s (Some e)) = Recv s (Some EOF)"
| "as_EOF_effect x = x"

fun as_EOF_result :: "read_result \<Rightarrow> read_result" where
  "as_EOF_result (Got s (Some e) rest) = Got s (Some EOF) (map as_EOF_event rest)"
| "as_EOF_result (Got s None rest) = Got s None (map as_EOF_event rest)"
| "as_EOF_result Pending = Pending"

section \<open>The process: flags, setup, role\<close>

text \<open>
  \<^verbatim>\<open>main\<close> (lines 79 to 197) talks to libp2p, the multiaddr library and the key generator.
  Their answers in one run are the environment: the error of key generation and of host
  creation (\<open>None\<close> is \<^verbatim>\<open>nil\<close>), for each listen address of the host what
  \<^verbatim>\<open>ValueForProtocol(multiaddr.P_TCP)\<close> returns (\<open>Inl\<close> an error, \<open>Inr\<close> the port), the
  host's identifier and addresses as printed, and the results of parsing the destination,
  of extracting the peer's identity and addresses from it, and of opening the stream.
  The flags are those that \<^verbatim>\<open>flag.Parse\<close> delivers.
\<close>

type_synonym stream = nat

type_synonym peer_id = string

type_synonym maddr = string

record flags =
  port :: int
  dest :: string
  "help" :: bool

record env =
  keypair_err :: "string option"
  host_err :: "string option"
  listen_tcp :: "(string + string) list"
  host_id :: string
  host_addrs :: "maddr list"
  dest_maddr :: "string + maddr"
  dest_info :: "string + peer_id \<times> maddr list"
  dest_stream :: "string + stream"

text \<open>
  What the process does, in order: console writes, the calls on the collaborators, the
  creation of a buffered read-writer on a stream, and the two \<^verbatim>\<open>go\<close> statements. It ends
  by \<^verbatim>\<open>os.Exit\<close>, by a panic, or it hangs for ever (\<^verbatim>\<open><-make(chan struct{})\<close> and
  \<^verbatim>\<open>select {}\<close>).
\<close>

datatype action =
    Console string
  | GenerateKeyPair
  | New_host int
  | SetStreamHandler string
  | NewMultiaddr string
  | AddrInfoFromP2pAddr maddr
  | AddAddrs peer_id "maddr list"
  | NewStream peer_id string
  | NewReadWriter stream
  | Go_readData stream
  | Go_writeData stream

datatype process_end = Exit int | Panic string | Hang

definition Println :: "string \<Rightarrow> action" where
  "Println s = Console (s @ [newline])"

definition protocol :: string where
  "protocol = ''/chat/1.0.0''"

text \<open>\<^verbatim>\<open>handleStream\<close> (lines 22 to 34), called by libp2p with each inbound stream.\<close>

definition handleStream :: "stream \<Rightarrow> action list" where
  "handleStream s =
     [Println ''-- Found a new stream, opening two way read-write buffer'',
      NewReadWriter s,
      Println ''-- Created buffer, now listening infinetly for reads and writes'',
      Go_readData s,
      Go_writeData s]"

text \<open>
  The loop of lines 132 to 138: the port of the first listen address that has one; the
  zero value of a Go string when there is none.
\<close>

fun find_port :: "(string + string) list \<Rightarrow> string" where
  "find_port [] = []"
| "find_port (Inr p # las) = p"
| "find_port (Inl err # las) = find_port las"

definition usage :: "action list" where
  "usage =
     [Println (''-- This program demonstrates a simple p2p chat application using libp2p'' @ [newline]),
      Println ''-- Usage: Run './chat -port <PORT>' where <PORT> can be any port number, e.g., 6666 or 8888, etc.'',
      Println ''-- Now run './chat -dest <MULTIADDR>' where <MULTIADDR> is multiaddress of previous listener host.'']"

definition advertisement :: "string \<Rightarrow> string \<Rightarrow> action" where
  "advertisement p ident =
     Console (''-- This node's multiaddr is /ip4/127.0.0.1/tcp/'' @ p @ ''/p2p/'' @ ident @
       ''. To connect to it, run another node and specify this address with the dest option.'' @
       [newline])"

text \<open>The branch of \<^verbatim>\<open>main\<close> for an empty destination (lines 126 to 150).\<close>

definition listen :: "env \<Rightarrow> action list \<times> process_end" where
  "listen ev =
     after [SetStreamHandler protocol]
       (let p = find_port (listen_tcp ev) in
        if p = [] then
          ([Console (''!! Unable to find local port '' @ p @ [newline])],
           Panic ''Unable to find actual local port'')
        else ([advertisement p (host_id ev)], Hang))"

text \<open>The branch of \<^verbatim>\<open>main\<close> for a destination (lines 152 to 195).\<close>

definition dial :: "string \<Rightarrow> env \<Rightarrow> action list \<times> process_end" where
  "dial d ev =
     after ([Println ''-- This node's multiaddrs are:''] @
            map (\<lambda>la. Console ('' - '' @ la @ [newline])) (host_addrs ev) @
            [Println [], NewMultiaddr d])
       (case dest_maddr ev of
          Inl err \<Rightarrow> ([Println ''!! Failed to parse multiaddr provided.''], Panic err)
        | Inr m \<Rightarrow>
            after [Println ''-- Parsing multiaddr'', AddrInfoFromP2pAddr m]
              (case dest_info ev of
                 Inl err \<Rightarrow>
                   ([Println ''!! Failed to get the peer's ID from multiaddr provided.''], Panic err)
               | Inr (ident, addrs) \<Rightarrow>
                   after [Println ''-- Retrieving peer ID'', AddAddrs ident addrs,
                          NewStream ident protocol]
                     (case dest_stream ev of
                        Inl err \<Rightarrow> ([Println ''!! Failed to initiate stream with host''], Panic err)
                      | Inr s \<Rightarrow>
                          ([Println ''-- Initiated stream with host.'',
                            NewReadWriter s, Go_writeData s, Go_readData s], Hang))))"

text \<open>
  \<^verbatim>\<open>main\<close>. The listen address is built from the port flag (line 110, its error dropped)
  and handed to \<^verbatim>\<open>libp2p.New\<close>; \<open>New_host\<close> records both.
\<close>

definition main :: "flags \<Rightarrow> env \<Rightarrow> action list \<times> process_end" where
  "main fl ev =
     (if help fl then (usage, Exit 0)
      else
        after [Println ''-- Got peer ID'', GenerateKeyPair]
          (case keypair_err ev of
             Some err \<Rightarrow> ([Println ''!! Error generating RSA key pair''], Panic err)
           | None \<Rightarrow>
               after [Println ''-- Created RSA key pair'', New_host (port fl)]
                 (case host_err ev of
                    Some err \<Rightarrow> ([Println ''!! Error creating host object''], Panic err)
                  | None \<Rightarrow>
                      after [Println ''-- Creating host object'']
                        (if dest fl = [] then listen ev else dial (dest fl) ev))))"

text \<open>
  A run of the program: \<^verbatim>\<open>main\<close>, and then, while the process hangs with the stream
  handler registered, one call of \<^verbatim>\<open>handleStream\<close> for each inbound stream ("When the
  other peer tries to make a connection, then the handleStream function will take over").
\<close>

definition run :: "flags \<Rightarrow> env \<Rightarrow> stream list \<Rightarrow> action list \<times> process_end" where
  "run fl ev inbound =
     (case main fl ev of
        (tr, Hang) \<Rightarrow>
          if SetStreamHandler protocol \<in> set tr
          then (tr @ concat (map handleStream inbound), Hang)
          else (tr, Hang)
      | (tr, e) \<Rightarrow> (tr, e))"

text \<open>
  The streams on which a read-writer was created, and those on which \<^verbatim>\<open>readData\<close> and
  \<^verbatim>\<open>writeData\<close> were started; the actions that are more than a console write; the
  actions of dialling.
\<close>

fun transcripts :: "action list \<Rightarrow> stream list" where
  "transcripts [] = []"
| "transcripts (NewReadWriter s # tr) = s # transcripts tr"
| "transcripts (x # tr) = transcripts tr"

fun inbound_loops :: "action list \<Rightarrow> stream list" where
  "inbound_loops [] = []"
| "inbound_loops (Go_readData s # tr) = s # inbound_loops tr"
| "inbound_loops (x # tr) = inbound_loops tr"

fun outbound_loops :: "action list \<Rightarrow> stream list" where
  "outbound_loops [] = []"
| "outbound_loops (Go_writeData s # tr) = s # outbound_loops tr"
| "outbound_loops (x # tr) = outbound_loops tr"


fun dials :: "action \<Rightarrow> bool" where
  "dials (NewMultiaddr d) = True"
| "dials (AddrInfoFromP2pAddr m) = True"
| "dials (AddAddrs p as) = True"
| "dials (NewStream p t) = True"
| "dials x = False"

section \<open>Facts about ReadString\<close>

lemma ReadString_Got_None:
  "ReadString d en es acc = Got s None rest \<Longrightarrow>
     \<exists>body. d \<notin> set body \<and> s = acc @ body @ [d] \<and> es = map Byte (body @ [d]) @ rest"
proof (induction d en es acc rule: ReadString.induct)
  case (3 delim en c es acc)
  show ?case
  proof (cases "c = delim")
    case True
    with 3 show ?thesis by auto
  next
    case False
    with 3 obtain body where "delim \<notin> set body" "s = (acc @ [c]) @ body @ [delim]"
      "es = map Byte (body @ [delim]) @ rest" by auto
    with False show ?thesis by (intro exI[of _ "c # body"]) auto
  qed
qed auto

lemma ReadString_Got_Some:
  "ReadString d en es acc = Got s (Some e) rest \<Longrightarrow> \<exists>body. d \<notin> set body \<and> s = acc @ body"
proof (induction d en es acc rule: ReadString.induct)
  case (3 delim en c es acc)
  show ?case
  proof (cases "c = delim")
    case True
    with 3 show ?thesis by auto
  next
    case False
    with 3 obtain body where "delim \<notin> set body" "s = (acc @ [c]) @ body" by auto
    with False show ?thesis by (intro exI[of _ "c # body"]) auto
  qed
qed auto

lemma ReadString_line:
  "d \<notin> set body \<Longrightarrow>
     ReadString d en (map Byte (body @ [d]) @ rest) acc = Got (acc @ body @ [d]) None rest"
  by (induction body arbitrary: acc) auto

lemma ReadString_as_EOF:
  "ReadString d (as_EOF_ending en) (map as_EOF_event es) acc = as_EOF_result (ReadString d en es acc)"
  by (induction d en es acc rule: ReadString.induct) auto

section \<open>One turn of each loop\<close>

declare readData.simps [simp del] writeData.simps [simp del]

lemma readData_cases [case_names blocked empty blank line]:
  obtains "ReadString newline en es [] = Pending" "readData en es = ([], Blocked)"
  | err rest where "ReadString newline en es [] = Got [] err rest"
      "readData en es = ([Recv [] err], Returned)"
  | err rest where "ReadString newline en es [] = Got [newline] err rest"
      "readData en es = (Recv [newline] err # fst (readData en rest), snd (readData en rest))"
  | str err rest where "ReadString newline en es [] = Got str err rest"
      "str \<noteq> []" "str \<noteq> [newline]"
      "readData en es = (Recv str err # Print (green @ str @ reset_prompt) # fst (readData en rest),
         snd (readData en rest))"
proof (cases "ReadString newline en es []")
  case Pending
  then show ?thesis using that(1) by (simp add: readData.simps)
next
  case (Got str err rest)
  then show ?thesis using that(2,3,4) by (cases "str = []"; cases "str = [newline]") (simp_all add: readData.simps after_def)
qed

lemma readData_head:
  "fst (readData en es) = [] \<and> snd (readData en es) = Blocked \<or> (\<exists>s e tr'. fst (readData en es) = Recv s e # tr')"
  by (cases en es rule: readData_cases) auto

lemma readData_suffix:
  "fst (readData en es) = pre @ Recv s e # post \<Longrightarrow>
     \<exists>es' rest. ReadString newline en es' [] = Got s e rest \<and>
        readData en es' = (Recv s e # post, snd (readData en es))"
proof (induction en es arbitrary: pre rule: readData.induct)
  case (1 en es)
  show ?case
  proof (cases en es rule: readData_cases)
    case blocked
    with 1(3) show ?thesis by simp
  next
    case (empty err' rest)
    with 1(3) have "pre = []" "s = []" "e = err'" "post = []"
      by (auto simp: Cons_eq_append_conv)
    with empty show ?thesis by auto
  next
    case (blank err' rest)
    show ?thesis
    proof (cases pre)
      case Nil
      with blank 1(3) show ?thesis by auto
    next
      case (Cons a pre')
      with blank 1(3) have "fst (readData en rest) = pre' @ Recv s e # post" by simp
      from 1(2) [OF blank(1) _ _ this] blank(2) show ?thesis by simp
    qed
  next
    case (line str err' rest)
    show ?thesis
    proof (cases pre)
      case Nil
      with line 1(3) show ?thesis by auto
    next
      case (Cons a pre')
      show ?thesis
      proof (cases pre')
        case Nil
        with Cons line 1(3) show ?thesis by simp
      next
        case (Cons b pre'')
        with \<open>pre = a # pre'\<close> line 1(3) have "fst (readData en rest) = pre'' @ Recv s e # post" by simp
        from 1(1) [OF line(1,2,3) this] line(4) show ?thesis by simp
      qed
    qed
  qed
qed

lemma readData_line:
  assumes "newline \<notin> set body"
  shows "readData en (map Byte (body @ [newline]) @ es) =
     (if body = [] then (Recv [newline] None # fst (readData en es), snd (readData en es))
      else (Recv (body @ [newline]) None # Print (green @ body @ [newline] @ reset_prompt) #
              fst (readData en es), snd (readData en es)))"
proof -
  have "ReadString newline en (map Byte (body @ [newline]) @ es) [] = Got (body @ [newline]) None es"
    using ReadString_line [OF assms, of en es "[]"] by simp
  then show ?thesis
    by (subst readData.simps) (simp add: after_def)
qed

lemma readData_blank_step:
  "readData en (Byte newline # es) = (Recv [newline] None # fst (readData en es), snd (readData en es))"
  by (subst readData.simps) (simp add: after_def)

lemma writeData_cases [case_names blocked failed line]:
  obtains "ReadString newline en stdin [] = Pending" "writeData en stdin = ([Print prompt], Blocked)"
  | s e rest where "ReadString newline en stdin [] = Got s (Some e) rest"
      "writeData en stdin = ([Print prompt, Stdin s (Some e), Print stdin_diagnostic], Panicked e)"
  | s rest where "ReadString newline en stdin [] = Got s None rest"
      "writeData en stdin =
         (Print prompt # Stdin s None # WriteString (s @ [newline]) # Flush # fst (writeData en rest),
          snd (writeData en rest))"
proof (cases "ReadString newline en stdin []")
  case Pending
  then show ?thesis using that(1) by (simp add: writeData.simps)
next
  case (Got s err rest)
  then show ?thesis using that(2,3) by (cases err) (simp_all add: writeData.simps after_def)
qed


lemma writeData_first_read_fails:
  "ReadString newline en stdin [] = Got s (Some e) rest \<Longrightarrow>
     writeData en stdin = ([Print prompt, Stdin s (Some e), Print stdin_diagnostic], Panicked e)"
  by (simp add: writeData.simps)

lemma printed_append: "printed (xs @ ys) = printed xs @ printed ys"
  by (induction xs rule: printed.induct) simp_all

lemma printed_readData_Nil: "printed (fst (readData en [])) = []"
  by (cases en) (simp_all add: readData.simps)

lemma render_inj: "green @ s @ reset_prompt = green @ t @ reset_prompt \<longleftrightarrow> s = t"
  by simp

lemma readData_Print:
  "Print p \<in> set (fst (readData en es)) \<Longrightarrow>
     \<exists>str. p = green @ str @ reset_prompt \<and> str \<noteq> [] \<and> str \<noteq> [newline]"
proof (induction en es rule: readData.induct)
  case (1 en es)
  show ?case
  proof (cases en es rule: readData_cases)
    case blocked
    with 1(3) show ?thesis by simp
  next
    case (empty err' rest)
    with 1(3) show ?thesis by simp
  next
    case (blank err' rest)
    with 1(3) have "Print p \<in> set (fst (readData en rest))" by simp
    from 1(2) [OF blank(1) _ _ this] show ?thesis by simp
  next
    case (line str err' rest)
    with 1(3) have "p = green @ str @ reset_prompt \<or> Print p \<in> set (fst (readData en rest))" by auto
    then show ?thesis
    proof
      assume "p = green @ str @ reset_prompt"
      with line show ?thesis by blast
    next
      assume "Print p \<in> set (fst (readData en rest))"
      from 1(1) [OF line(1,2,3) this] show ?thesis .
    qed
  qed
qed

lemma readData_Returned:
  "snd (readData en es) = Returned \<Longrightarrow> \<exists>e. Recv [] e \<in> set (fst (readData en es))"
proof (induction en es rule: readData.induct)
  case (1 en es)
  show ?case
  proof (cases en es rule: readData_cases)
    case blocked
    with 1(3) show ?thesis by simp
  next
    case (empty err' rest)
    then show ?thesis by auto
  next
    case (blank err' rest)
    with 1(3) have "snd (readData en rest) = Returned" by simp
    from 1(2) [OF blank(1) _ _ this] blank(2) show ?thesis by auto
  next
    case (line str err' rest)
    with 1(3) have "snd (readData en rest) = Returned" by simp
    from 1(1) [OF line(1,2,3) this] line(4) show ?thesis by auto
  qed
qed

lemma readData_empty_last:
  assumes "fst (readData en es) = pre @ Recv [] e # post"
  shows "post = [] \<and> snd (readData en es) = Returned"
proof -
  from readData_suffix [OF assms] obtain es' rest where
    r: "ReadString newline en es' [] = Got [] e rest"
    and t: "readData en es' = (Recv [] e # post, snd (readData en es))" by blast
  show ?thesis by (cases en es' rule: readData_cases) (use r t in auto)
qed

lemma readData_outcome: "snd (readData en es) = Returned \<or> snd (readData en es) = Blocked"
proof (induction en es rule: readData.induct)
  case (1 en es)
  show ?case
  proof (cases en es rule: readData_cases)
    case (blank err' rest)
    with 1(2) [OF blank(1)] show ?thesis by simp
  next
    case (line str err' rest)
    with 1(1) [OF line(1,2,3)] show ?thesis by simp
  qed auto
qed

lemma readData_as_EOF:
  "readData (as_EOF_ending en) (map as_EOF_event es) =
     (map as_EOF_effect (fst (readData en es)), snd (readData en es))"
proof (induction en es rule: readData.induct)
  case (1 en es)
  show ?case
  proof (cases en es rule: readData_cases)
    case blocked
    then show ?thesis
      using ReadString_as_EOF [of newline en es "[]"] by (simp add: readData.simps)
  next
    case (empty err' rest)
    then show ?thesis
      using ReadString_as_EOF [of newline en es "[]"]
      by (cases err') (simp_all add: readData.simps)
  next
    case (blank err' rest)
    with 1(2) [OF blank(1)] show ?thesis
      using ReadString_as_EOF [of newline en es "[]"]
      by (cases err') (simp_all add: readData.simps [of "as_EOF_ending en"] after_def)
  next
    case (line str err' rest)
    with 1(1) [OF line(1,2,3)] show ?thesis
      using ReadString_as_EOF [of newline en es "[]"]
      by (cases err') (simp_all add: readData.simps [of "as_EOF_ending en"] after_def)
  qed
qed

section \<open>The conversation\<close>

text \<open>
  Claim C1 (line round-trip). Side A runs \<^verbatim>\<open>writeData\<close> on any standard input; the bytes
  it flushes are the peer stream that side B's \<^verbatim>\<open>readData\<close> reads, whatever the ending
  of that stream. Side B then prints exactly the lines that side A obtained from its
  console, in order, each byte for byte between the colour marker and the prompt, except
  the lines that are only the terminator. By \<open>ReadString_Got_None\<close> each such line is
  its content followed by the terminator.
\<close>

theorem line_round_trip:
  "printed (fst (readData en' (map Byte (transmitted [] (fst (writeData en stdin)))))) =
     map (\<lambda>l. green @ l @ reset_prompt)
       (filter (\<lambda>l. l \<noteq> [newline]) (stdin_lines (fst (writeData en stdin))))"
proof (induction en stdin rule: writeData.induct)
  case (1 en stdin)
  show ?case
  proof (cases en stdin rule: writeData_cases)
    case blocked
    then show ?thesis by (simp add: printed_readData_Nil)
  next
    case (failed s e rest)
    then show ?thesis by (simp add: printed_readData_Nil)
  next
    case (line s rest)
    from ReadString_Got_None [OF line(1)] obtain body where
      body: "newline \<notin> set body" "s = body @ [newline]" by auto
    let ?w = "map Byte (transmitted [] (fst (writeData en rest)))"
    have tx: "map Byte (transmitted [] (fst (writeData en stdin))) =
        map Byte (body @ [newline]) @ map Byte ([] @ [newline]) @ ?w"
      using line(2) body by simp
    have "fst (readData en' (map Byte (transmitted [] (fst (writeData en stdin))))) =
        (if body = [] then [Recv [newline] None]
         else [Recv s None, Print (green @ s @ reset_prompt)]) @
        Recv [newline] None # fst (readData en' ?w)"
      unfolding tx by (subst readData_line [OF body(1)]) (simp add: readData_blank_step body(2))
    then have "printed (fst (readData en' (map Byte (transmitted [] (fst (writeData en stdin)))))) =
        (if body = [] then [] else [green @ s @ reset_prompt]) @
          printed (fst (readData en' (map Byte (transmitted [] (fst (writeData en rest))))))"
      by (simp add: printed_append)
    also have "\<dots> = map (\<lambda>l. green @ l @ reset_prompt)
       (filter (\<lambda>l. l \<noteq> [newline]) (stdin_lines (fst (writeData en stdin))))"
      using 1 [OF line(1) refl] line(2) body by simp
    finally show ?thesis .
  qed
qed

theorem line_round_trip_witness:
  "printed (fst (readData Silent (map Byte (transmitted []
       (fst (writeData (Sticky EOF) (map Byte (''hello'' @ [newline] @ [newline] @ ''ok'' @ [newline])))))))) =
     [green @ ''hello'' @ [newline] @ reset_prompt, green @ ''ok'' @ [newline] @ reset_prompt]"
proof -
  have "stdin_lines (fst (writeData (Sticky EOF)
          (map Byte (''hello'' @ [newline] @ [newline] @ ''ok'' @ [newline])))) =
        [''hello'' @ [newline], [newline], ''ok'' @ [newline]]"
    by code_simp
  with line_round_trip [of Silent "Sticky EOF"
      "map Byte (''hello'' @ [newline] @ [newline] @ ''ok'' @ [newline])"]
  show ?thesis by (simp add: newline_def)
qed

text \<open>
  Claim C2. For every line that the console read delivers without an error, and only for
  those, \<^verbatim>\<open>writeData\<close> calls \<^verbatim>\<open>WriteString\<close> with that line followed by one more line
  feed and then \<^verbatim>\<open>Flush\<close>; the bytes on the stream are the lines, each followed by one
  extra line feed; and every such line already ends in the terminator, so that each
  message is followed by one blank line.
\<close>

theorem outbound_writes_line_and_flushes:
  "rw_calls (fst (writeData en stdin)) =
      concat (map (\<lambda>l. [WriteString (l @ [newline]), Flush]) (stdin_lines (fst (writeData en stdin))))
   \<and> transmitted [] (fst (writeData en stdin)) =
      concat (map (\<lambda>l. l @ [newline]) (stdin_lines (fst (writeData en stdin))))
   \<and> (\<forall>l \<in> set (stdin_lines (fst (writeData en stdin))).
        \<exists>body. newline \<notin> set body \<and> l = body @ [newline])"
proof (induction en stdin rule: writeData.induct)
  case (1 en stdin)
  show ?case
  proof (cases en stdin rule: writeData_cases)
    case blocked
    then show ?thesis by simp
  next
    case (failed s e rest)
    then show ?thesis by simp
  next
    case (line s rest)
    from ReadString_Got_None [OF line(1)] obtain body where
      body: "newline \<notin> set body" "s = body @ [newline]" by auto
    from 1 [OF line(1) refl] line(2) body show ?thesis by simp
  qed
qed

theorem outbound_writes_line_and_flushes_witness:
  "rw_calls (fst (writeData (Sticky EOF) (map Byte (''hi'' @ [newline])))) =
      [WriteString (''hi'' @ [newline, newline]), Flush]
   \<and> transmitted [] (fst (writeData (Sticky EOF) (map Byte (''hi'' @ [newline])))) =
      ''hi'' @ [newline, newline]
   \<and> (\<exists>body. newline \<notin> set body \<and> ''hi'' @ [newline] = body @ [newline])"
proof -
  have "stdin_lines (fst (writeData (Sticky EOF) (map Byte (''hi'' @ [newline])))) = [''hi'' @ [newline]]"
    by code_simp
  with outbound_writes_line_and_flushes [of "Sticky EOF" "map Byte (''hi'' @ [newline])"]
  show ?thesis by simp
qed

text \<open>
  Claim C5 (blank-line suppression). Wherever in a run of \<^verbatim>\<open>readData\<close> a read yields
  exactly the terminator, the next effect of the loop is another read, or the loop is
  blocked in that next read: nothing is printed for the blank line and the loop does not
  return there. No run ever prints a rendered blank line.
\<close>

theorem blank_line_suppressed:
  assumes "fst (readData en es) = pre @ Recv [newline] err # post"
  shows "((post = [] \<and> snd (readData en es) = Blocked) \<or> (\<exists>s e post'. post = Recv s e # post'))
     \<and> Print (green @ [newline] @ reset_prompt) \<notin> set (fst (readData en es))"
proof
  from readData_suffix [OF assms] obtain es' rest where
    r: "ReadString newline en es' [] = Got [newline] err rest"
    and t: "readData en es' = (Recv [newline] err # post, snd (readData en es))" by blast
  show "(post = [] \<and> snd (readData en es) = Blocked) \<or> (\<exists>s e post'. post = Recv s e # post')"
  proof (cases en es' rule: readData_cases)
    case (blank err' rest')
    with r t have "post = fst (readData en rest)" "snd (readData en es) = snd (readData en rest)" by auto
    then show ?thesis using readData_head [of en rest] by auto
  qed (use r t in auto)
  show "Print (green @ [newline] @ reset_prompt) \<notin> set (fst (readData en es))"
    using readData_Print [of "green @ [newline] @ reset_prompt" en es] by auto
qed

theorem blank_line_suppressed_witness:
  "fst (readData Silent (map Byte (''a'' @ [newline, newline] @ ''b'' @ [newline]))) =
     [Recv (''a'' @ [newline]) None, Print (green @ ''a'' @ [newline] @ reset_prompt)] @
       Recv [newline] None #
       [Recv (''b'' @ [newline]) None, Print (green @ ''b'' @ [newline] @ reset_prompt)]
   \<and> (\<exists>s e post'. [Recv (''b'' @ [newline]) None, Print (green @ ''b'' @ [newline] @ reset_prompt)]
          = Recv s e # post')
   \<and> Print (green @ [newline] @ reset_prompt) \<notin>
        set (fst (readData Silent (map Byte (''a'' @ [newline, newline] @ ''b'' @ [newline]))))"
proof -
  have tr: "fst (readData Silent (map Byte (''a'' @ [newline, newline] @ ''b'' @ [newline]))) =
     [Recv (''a'' @ [newline]) None, Print (green @ ''a'' @ [newline] @ reset_prompt)] @
       Recv [newline] None #
       [Recv (''b'' @ [newline]) None, Print (green @ ''b'' @ [newline] @ reset_prompt)]"
    by code_simp
  from blank_line_suppressed [OF tr] tr show ?thesis by simp
qed

text \<open>
  Claim C6. \<^verbatim>\<open>readData\<close> returns exactly when one of its reads yields the empty string;
  an empty read is always the last effect of the run, so that no read and no print
  follows it; and a run that does not return is blocked in a read.
\<close>

theorem inbound_returns_iff_empty_read:
  "(snd (readData en es) = Returned \<longleftrightarrow> (\<exists>e. Recv [] e \<in> set (fst (readData en es))))
   \<and> (\<forall>pre e post. fst (readData en es) = pre @ Recv [] e # post \<longrightarrow> post = [])
   \<and> (snd (readData en es) \<noteq> Returned \<longrightarrow> snd (readData en es) = Blocked)"
proof (intro conjI allI impI iffI)
  assume "snd (readData en es) = Returned"
  then show "\<exists>e. Recv [] e \<in> set (fst (readData en es))" by (rule readData_Returned)
next
  assume "\<exists>e. Recv [] e \<in> set (fst (readData en es))"
  then obtain e pre post where "fst (readData en es) = pre @ Recv [] e # post"
    by (auto dest: split_list)
  then show "snd (readData en es) = Returned" using readData_empty_last by blast
next
  fix pre e post
  assume "fst (readData en es) = pre @ Recv [] e # post"
  then show "post = []" using readData_empty_last by blast
next
  assume "snd (readData en es) \<noteq> Returned"
  then show "snd (readData en es) = Blocked" using readData_outcome [of en es] by simp
qed

theorem inbound_returns_iff_empty_read_witness:
  "snd (readData (Sticky EOF) (map Byte (''a'' @ [newline]))) = Returned
   \<and> fst (readData (Sticky EOF) (map Byte (''a'' @ [newline]))) =
       [Recv (''a'' @ [newline]) None, Print (green @ ''a'' @ [newline] @ reset_prompt)] @
         Recv [] (Some EOF) # []
   \<and> snd (readData Silent (map Byte (''a'' @ [newline]))) = Blocked"
proof -
  have tr: "fst (readData (Sticky EOF) (map Byte (''a'' @ [newline]))) =
       [Recv (''a'' @ [newline]) None, Print (green @ ''a'' @ [newline] @ reset_prompt)] @
         Recv [] (Some EOF) # []"
    by code_simp
  then have "\<exists>e. Recv [] e \<in> set (fst (readData (Sticky EOF) (map Byte (''a'' @ [newline]))))"
    by simp
  moreover have "snd (readData Silent (map Byte (''a'' @ [newline]))) \<noteq> Returned"
    by code_simp
  ultimately show ?thesis
    using inbound_returns_iff_empty_read [of "Sticky EOF" "map Byte (''a'' @ [newline])"]
      inbound_returns_iff_empty_read [of Silent "map Byte (''a'' @ [newline])"] tr
    by blast
qed

text \<open>
  Claim C7 says that every read that fails with an error other than end-of-stream ends
  \<^verbatim>\<open>readData\<close>, with no retry. \<^verbatim>\<open>readData\<close> drops the error and looks at the string
  alone, and \<^verbatim>\<open>ReadString\<close> returns the data read before the error: when the peer's
  stream is reset after the bytes \<open>hi\<close>, the read fails with \<open>hi\<close>, the loop prints it
  and reads again; only that second read, which yields nothing, ends the loop.
\<close>

theorem inbound_read_error_counterexample:
  "ReadString newline (Sticky (ErrOther ''stream reset'')) [Byte CHR ''h'', Byte CHR ''i''] [] =
      Got ''hi'' (Some (ErrOther ''stream reset'')) []
   \<and> ErrOther ''stream reset'' \<noteq> EOF
   \<and> readData (Sticky (ErrOther ''stream reset'')) [Byte CHR ''h'', Byte CHR ''i''] =
      ([Recv ''hi'' (Some (ErrOther ''stream reset'')), Print (green @ ''hi'' @ reset_prompt),
        Recv [] (Some (ErrOther ''stream reset''))], Returned)"
  by code_simp

text \<open>
  Claim C7, amended. Wherever in a run of \<^verbatim>\<open>readData\<close> a read fails: if it yields no data
  the loop returns there, silently; if it yields data, the data is printed like a line and
  the loop goes on to another read. Which error it was plays no part: the run on the
  stream with every error replaced by end-of-stream has the same effects and the same
  outcome.
\<close>

theorem inbound_read_error_handling:
  assumes "fst (readData en es) = pre @ Recv s (Some e) # post"
  shows "(s = [] \<longrightarrow> post = [] \<and> snd (readData en es) = Returned)
     \<and> (s \<noteq> [] \<longrightarrow> (\<exists>post'. post = Print (green @ s @ reset_prompt) # post' \<and>
            ((post' = [] \<and> snd (readData en es) = Blocked) \<or> (\<exists>s' e' post''. post' = Recv s' e' # post''))))
     \<and> readData (as_EOF_ending en) (map as_EOF_event es) =
         (map as_EOF_effect (fst (readData en es)), snd (readData en es))"
proof -
  from readData_suffix [OF assms] obtain es' rest where
    r: "ReadString newline en es' [] = Got s (Some e) rest"
    and t: "readData en es' = (Recv s (Some e) # post, snd (readData en es))" by blast
  from ReadString_Got_Some [OF r] have nl: "newline \<notin> set s" by auto
  have empty: "post = [] \<and> snd (readData en es) = Returned" if "s = []"
    using readData_empty_last assms that by blast
  have partial: "\<exists>post'. post = Print (green @ s @ reset_prompt) # post' \<and>
            ((post' = [] \<and> snd (readData en es) = Blocked) \<or> (\<exists>s' e' post''. post' = Recv s' e' # post''))"
    if "s \<noteq> []"
  proof (cases en es' rule: readData_cases)
    case (line str err' rest')
    with r t have "post = Print (green @ s @ reset_prompt) # fst (readData en rest)"
      "snd (readData en es) = snd (readData en rest)" by auto
    then show ?thesis using readData_head [of en rest] by auto
  qed (use r t nl that in auto)
  from empty partial readData_as_EOF [of en es] show ?thesis by blast
qed

theorem inbound_read_error_handling_witness:
  "fst (readData (Sticky (ErrOther ''stream reset'')) [Byte CHR ''h'', Byte CHR ''i'']) =
      [] @ Recv ''hi'' (Some (ErrOther ''stream reset'')) #
        [Print (green @ ''hi'' @ reset_prompt), Recv [] (Some (ErrOther ''stream reset''))]
   \<and> readData (Sticky EOF) [Byte CHR ''h'', Byte CHR ''i''] =
      ([Recv ''hi'' (Some EOF), Print (green @ ''hi'' @ reset_prompt), Recv [] (Some EOF)], Returned)"
proof -
  have tr: "fst (readData (Sticky (ErrOther ''stream reset'')) [Byte CHR ''h'', Byte CHR ''i'']) =
      [] @ Recv ''hi'' (Some (ErrOther ''stream reset'')) #
        [Print (green @ ''hi'' @ reset_prompt), Recv [] (Some (ErrOther ''stream reset''))]"
    by code_simp
  have st: "snd (readData (Sticky (ErrOther ''stream reset'')) [Byte CHR ''h'', Byte CHR ''i'']) = Returned"
    by code_simp
  from inbound_read_error_handling [OF tr] tr st show ?thesis by simp
qed



section \<open>The process\<close>

lemma transcripts_append: "transcripts (xs @ ys) = transcripts xs @ transcripts ys"
  by (induction xs rule: transcripts.induct) simp_all

lemma inbound_loops_append: "inbound_loops (xs @ ys) = inbound_loops xs @ inbound_loops ys"
  by (induction xs rule: inbound_loops.induct) simp_all

lemma outbound_loops_append: "outbound_loops (xs @ ys) = outbound_loops xs @ outbound_loops ys"
  by (induction xs rule: outbound_loops.induct) simp_all

lemma handlers_loops:
  "transcripts (concat (map handleStream inbound)) = inbound"
  "inbound_loops (concat (map handleStream inbound)) = inbound"
  "outbound_loops (concat (map handleStream inbound)) = inbound"
  by (induction inbound) (simp_all add: handleStream_def Println_def)

lemma find_port_none: "\<forall>la \<in> set las. isl la \<Longrightarrow> find_port las = []"
  by (induction las rule: find_port.induct) simp_all

lemma listen_loops:
  "transcripts (fst (listen ev)) = []" "inbound_loops (fst (listen ev)) = []"
  "outbound_loops (fst (listen ev)) = []" "SetStreamHandler protocol \<in> set (fst (listen ev))"
  by (simp_all add: listen_def after_def Let_def advertisement_def)

lemma noloops_Console:
  "transcripts (map (\<lambda>la. Console (f la)) xs) = []"
  "inbound_loops (map (\<lambda>la. Console (f la)) xs) = []"
  "outbound_loops (map (\<lambda>la. Console (f la)) xs) = []"
  by (induction xs) simp_all

lemma dial_loops:
  "transcripts (fst (dial d ev)) =
     (case snd (dial d ev) of Hang \<Rightarrow> (case dest_stream ev of Inr s \<Rightarrow> [s] | Inl err \<Rightarrow> []) | _ \<Rightarrow> [])"
  "inbound_loops (fst (dial d ev)) = transcripts (fst (dial d ev))"
  "outbound_loops (fst (dial d ev)) = transcripts (fst (dial d ev))"
  "SetStreamHandler t \<notin> set (fst (dial d ev))"
  by (auto simp add: dial_def after_def Println_def transcripts_append inbound_loops_append
        outbound_loops_append noloops_Console split: sum.splits prod.splits)

lemma main_shape:
  "main fl ev =
     (if help fl then (usage, Exit 0)
      else if keypair_err ev \<noteq> None then
        ([Println ''-- Got peer ID'', GenerateKeyPair, Println ''!! Error generating RSA key pair''],
         Panic (the (keypair_err ev)))
      else if host_err ev \<noteq> None then
        ([Println ''-- Got peer ID'', GenerateKeyPair, Println ''-- Created RSA key pair'',
          New_host (port fl), Println ''!! Error creating host object''], Panic (the (host_err ev)))
      else after [Println ''-- Got peer ID'', GenerateKeyPair, Println ''-- Created RSA key pair'',
          New_host (port fl), Println ''-- Creating host object'']
          (if dest fl = [] then listen ev else dial (dest fl) ev))"
  by (auto simp: main_def after_def split: option.splits)

lemma dial_Hang: "snd (dial d ev) = Hang \<Longrightarrow> \<exists>s. dest_stream ev = Inr s"
  by (auto simp: dial_def after_def split: sum.splits prod.splits)

lemma main_Hang_dial:
  assumes "snd (main fl ev) = Hang" and "dest fl \<noteq> []"
  shows "\<exists>s. dest_stream ev = Inr s"
proof -
  from assms have "snd (dial (dest fl) ev) = Hang"
    by (auto simp: main_shape usage_def after_def split: if_splits)
  then show ?thesis by (rule dial_Hang)
qed

text \<open>
  Claim C3 says that a run has at most one read-writer whatever the inbound connection
  events are. A listener that receives two inbound streams creates two, and starts the
  two loops on each.
\<close>

theorem single_transcript_counterexample:
  "\<not> length (transcripts (fst (run \<lparr>port = 6666, dest = [], help = False\<rparr>
       \<lparr>keypair_err = None, host_err = None, listen_tcp = [Inr ''6666''], host_id = ''QmA'',
        host_addrs = [''/ip4/127.0.0.1/tcp/6666''], dest_maddr = Inl ''empty multiaddr'',
        dest_info = Inl ''empty multiaddr'', dest_stream = Inl ''no peer''\<rparr> [1, 2]))) \<le> 1"
  by (simp add: run_def main_def listen_def after_def protocol_def advertisement_def
      handleStream_def Println_def)

text \<open>
  Claim C3, amended. Every read-writer of a run gets exactly one \<^verbatim>\<open>readData\<close> and one
  \<^verbatim>\<open>writeData\<close>. A run that dials and reaches its wait creates exactly one read-writer,
  on the stream it opened, and it reaches its wait only when that stream was opened; a
  run that listens and reaches its wait creates one for each inbound stream, so none, one
  or several; a run that exits or panics creates none.
\<close>

theorem transcripts_per_stream:
  "inbound_loops (fst (run fl ev inbound)) = transcripts (fst (run fl ev inbound))
   \<and> outbound_loops (fst (run fl ev inbound)) = transcripts (fst (run fl ev inbound))
   \<and> transcripts (fst (run fl ev inbound)) =
       (case snd (main fl ev) of
          Hang \<Rightarrow> if dest fl = [] then inbound
                  else (case dest_stream ev of Inr s \<Rightarrow> [s] | Inl err \<Rightarrow> [])
        | Exit n \<Rightarrow> []
        | Panic msg \<Rightarrow> [])
   \<and> (snd (main fl ev) = Hang \<and> dest fl \<noteq> [] \<longrightarrow>
        (\<exists>s. dest_stream ev = Inr s
           \<and> transcripts (fst (run fl ev inbound)) = [s]
           \<and> inbound_loops (fst (run fl ev inbound)) = [s]
           \<and> outbound_loops (fst (run fl ev inbound)) = [s]))"
proof -
  have loops: "inbound_loops (fst (run fl ev inbound)) = transcripts (fst (run fl ev inbound))
   \<and> outbound_loops (fst (run fl ev inbound)) = transcripts (fst (run fl ev inbound))
   \<and> transcripts (fst (run fl ev inbound)) =
       (case snd (main fl ev) of
          Hang \<Rightarrow> if dest fl = [] then inbound
                  else (case dest_stream ev of Inr s \<Rightarrow> [s] | Inl err \<Rightarrow> [])
        | Exit n \<Rightarrow> []
        | Panic msg \<Rightarrow> [])"
  proof (cases "help fl \<or> keypair_err ev \<noteq> None \<or> host_err ev \<noteq> None")
    case True
    then show ?thesis
      by (auto simp: run_def main_shape usage_def Println_def)
  next
    case False
    show ?thesis
    proof (cases "dest fl = []")
      case True
      with False show ?thesis
        by (cases "snd (listen ev)")
          (auto simp: run_def main_shape after_def Println_def listen_loops handlers_loops
            transcripts_append inbound_loops_append outbound_loops_append split: prod.splits)
    next
      case d: False
      with False show ?thesis
        by (cases "snd (dial (dest fl) ev)")
          (auto simp: run_def main_shape after_def Println_def dial_loops
            transcripts_append inbound_loops_append outbound_loops_append
            split: prod.splits process_end.splits)
    qed
  qed
  have dialer: "\<exists>s. dest_stream ev = Inr s
           \<and> transcripts (fst (run fl ev inbound)) = [s]
           \<and> inbound_loops (fst (run fl ev inbound)) = [s]
           \<and> outbound_loops (fst (run fl ev inbound)) = [s]"
    if h: "snd (main fl ev) = Hang" and d: "dest fl \<noteq> []"
  proof -
    from main_Hang_dial [OF h d] obtain s where s: "dest_stream ev = Inr s" ..
    with loops h d show ?thesis by simp
  qed
  from loops dialer show ?thesis by blast
qed

theorem transcripts_per_stream_witness:
  "transcripts (fst (run \<lparr>port = 0, dest = ''/ip4/127.0.0.1/tcp/6666/p2p/QmA'', help = False\<rparr>
       \<lparr>keypair_err = None, host_err = None, listen_tcp = [Inr ''7777''], host_id = ''QmB'',
        host_addrs = [''/ip4/127.0.0.1/tcp/7777''], dest_maddr = Inr ''/ip4/127.0.0.1/tcp/6666/p2p/QmA'',
        dest_info = Inr (''QmA'', [''/ip4/127.0.0.1/tcp/6666'']), dest_stream = Inr 5\<rparr> [])) = [5]
   \<and> inbound_loops (fst (run \<lparr>port = 0, dest = ''/ip4/127.0.0.1/tcp/6666/p2p/QmA'', help = False\<rparr>
       \<lparr>keypair_err = None, host_err = None, listen_tcp = [Inr ''7777''], host_id = ''QmB'',
        host_addrs = [''/ip4/127.0.0.1/tcp/7777''], dest_maddr = Inr ''/ip4/127.0.0.1/tcp/6666/p2p/QmA'',
        dest_info = Inr (''QmA'', [''/ip4/127.0.0.1/tcp/6666'']), dest_stream = Inr 5\<rparr> [])) = [5]"
proof -
  let ?fl = "\<lparr>port = 0, dest = ''/ip4/127.0.0.1/tcp/6666/p2p/QmA'', help = False\<rparr>"
  let ?ev = "\<lparr>keypair_err = None, host_err = None, listen_tcp = [Inr ''7777''], host_id = ''QmB'',
        host_addrs = [''/ip4/127.0.0.1/tcp/7777''], dest_maddr = Inr ''/ip4/127.0.0.1/tcp/6666/p2p/QmA'',
        dest_info = Inr (''QmA'', [''/ip4/127.0.0.1/tcp/6666'']), dest_stream = Inr 5\<rparr>"
  have "snd (main ?fl ?ev) = Hang"
    by (simp add: main_def dial_def after_def)
  with transcripts_per_stream [of ?fl ?ev "[]"] show ?thesis by simp
qed

text \<open>
  Claim C4 says that every invocation with a destination takes the dialler's path. With
  \<^verbatim>\<open>--help\<close> as well the process prints the usage and exits before the role is chosen:
  the destination is not parsed, nothing is registered, no stream is opened.
\<close>

theorem role_selection_counterexample:
  "dest \<lparr>port = 0, dest = ''/ip4/127.0.0.1/tcp/6666/p2p/QmA'', help = True\<rparr> \<noteq> []
   \<and> main \<lparr>port = 0, dest = ''/ip4/127.0.0.1/tcp/6666/p2p/QmA'', help = True\<rparr>
        \<lparr>keypair_err = None, host_err = None, listen_tcp = [Inr ''7777''], host_id = ''QmB'',
         host_addrs = [''/ip4/127.0.0.1/tcp/7777''], dest_maddr = Inr ''/ip4/127.0.0.1/tcp/6666/p2p/QmA'',
         dest_info = Inr (''QmA'', [''/ip4/127.0.0.1/tcp/6666'']), dest_stream = Inr 5\<rparr> = (usage, Exit 0)
   \<and> NewMultiaddr ''/ip4/127.0.0.1/tcp/6666/p2p/QmA'' \<notin> set usage
   \<and> AddAddrs ''QmA'' [''/ip4/127.0.0.1/tcp/6666''] \<notin> set usage
   \<and> NewStream ''QmA'' protocol \<notin> set usage"
  by (simp add: main_def usage_def Println_def)

text \<open>
  Claim C4, amended. For every invocation that reaches the choice (no \<^verbatim>\<open>--help\<close>, key
  generation and host creation succeed), the role depends on the destination alone. With
  an empty destination the process registers the stream handler and never dials, and when
  a port is found it displays its address last and hangs. With a destination it parses
  the destination and never registers a handler, and when parsing, the extraction of the
  peer and the opening of the stream succeed, it registers the peer's addresses, opens the
  stream and hangs. The port flag and the rest of the environment play no part in the
  choice.
\<close>

theorem role_selection:
  assumes "\<not> help fl" and "keypair_err ev = None" and "host_err ev = None"
  shows "(dest fl = [] \<longrightarrow>
            SetStreamHandler protocol \<in> set (fst (main fl ev))
          \<and> (\<forall>a \<in> set (fst (main fl ev)). \<not> dials a)
          \<and> (find_port (listen_tcp ev) \<noteq> [] \<longrightarrow>
                last (fst (main fl ev)) = advertisement (find_port (listen_tcp ev)) (host_id ev)
              \<and> snd (main fl ev) = Hang))
       \<and> (dest fl \<noteq> [] \<longrightarrow>
            NewMultiaddr (dest fl) \<in> set (fst (main fl ev))
          \<and> (\<forall>t. SetStreamHandler t \<notin> set (fst (main fl ev)))
          \<and> (\<forall>m ident addrs s.
                dest_maddr ev = Inr m \<and> dest_info ev = Inr (ident, addrs) \<and> dest_stream ev = Inr s \<longrightarrow>
                  AddAddrs ident addrs \<in> set (fst (main fl ev))
                \<and> NewStream ident protocol \<in> set (fst (main fl ev))
                \<and> snd (main fl ev) = Hang))"
proof (intro conjI impI)
  assume d: "dest fl = []"
  with assms have m: "main fl ev = after [Println ''-- Got peer ID'', GenerateKeyPair,
      Println ''-- Created RSA key pair'', New_host (port fl), Println ''-- Creating host object'']
      (listen ev)"
    by (simp add: main_shape)
  show "SetStreamHandler protocol \<in> set (fst (main fl ev))"
    by (simp add: m after_def listen_loops)
  show "\<forall>a \<in> set (fst (main fl ev)). \<not> dials a"
    by (auto simp: m after_def listen_def Let_def Println_def advertisement_def)
  show "last (fst (main fl ev)) = advertisement (find_port (listen_tcp ev)) (host_id ev)"
    if "find_port (listen_tcp ev) \<noteq> []"
    using that by (simp add: m after_def listen_def Let_def)
  show "snd (main fl ev) = Hang" if "find_port (listen_tcp ev) \<noteq> []"
    using that by (simp add: m after_def listen_def Let_def)
next
  assume d: "dest fl \<noteq> []"
  with assms have m: "main fl ev = after [Println ''-- Got peer ID'', GenerateKeyPair,
      Println ''-- Created RSA key pair'', New_host (port fl), Println ''-- Creating host object'']
      (dial (dest fl) ev)"
    by (simp add: main_shape)
  show "NewMultiaddr (dest fl) \<in> set (fst (main fl ev))"
    by (simp add: m after_def dial_def)
  show "\<forall>t. SetStreamHandler t \<notin> set (fst (main fl ev))"
    by (simp add: m after_def dial_loops Println_def)
  show "\<forall>m ident addrs s.
          dest_maddr ev = Inr m \<and> dest_info ev = Inr (ident, addrs) \<and> dest_stream ev = Inr s \<longrightarrow>
            AddAddrs ident addrs \<in> set (fst (main fl ev))
          \<and> NewStream ident protocol \<in> set (fst (main fl ev))
          \<and> snd (main fl ev) = Hang"
    by (auto simp: m after_def dial_def)
qed

theorem role_selection_witness:
  "NewMultiaddr ''/ip4/127.0.0.1/tcp/6666/p2p/QmA'' \<in> set (fst (main
        \<lparr>port = 0, dest = ''/ip4/127.0.0.1/tcp/6666/p2p/QmA'', help = False\<rparr>
        \<lparr>keypair_err = None, host_err = None, listen_tcp = [Inr ''7777''], host_id = ''QmB'',
         host_addrs = [''/ip4/127.0.0.1/tcp/7777''], dest_maddr = Inr ''/ip4/127.0.0.1/tcp/6666/p2p/QmA'',
         dest_info = Inr (''QmA'', [''/ip4/127.0.0.1/tcp/6666'']), dest_stream = Inr 5\<rparr>))
   \<and> snd (main
        \<lparr>port = 0, dest = ''/ip4/127.0.0.1/tcp/6666/p2p/QmA'', help = False\<rparr>
        \<lparr>keypair_err = None, host_err = None, listen_tcp = [Inr ''7777''], host_id = ''QmB'',
         host_addrs = [''/ip4/127.0.0.1/tcp/7777''], dest_maddr = Inr ''/ip4/127.0.0.1/tcp/6666/p2p/QmA'',
         dest_info = Inr (''QmA'', [''/ip4/127.0.0.1/tcp/6666'']), dest_stream = Inr 5\<rparr>) = Hang
   \<and> SetStreamHandler protocol \<in> set (fst (main \<lparr>port = 6666, dest = [], help = False\<rparr>
        \<lparr>keypair_err = None, host_err = None, listen_tcp = [Inr ''6666''], host_id = ''QmA'',
         host_addrs = [''/ip4/127.0.0.1/tcp/6666''], dest_maddr = Inl ''empty multiaddr'',
         dest_info = Inl ''empty multiaddr'', dest_stream = Inl ''no peer''\<rparr>))
   \<and> snd (main \<lparr>port = 6666, dest = [], help = False\<rparr>
        \<lparr>keypair_err = None, host_err = None, listen_tcp = [Inr ''6666''], host_id = ''QmA'',
         host_addrs = [''/ip4/127.0.0.1/tcp/6666''], dest_maddr = Inl ''empty multiaddr'',
         dest_info = Inl ''empty multiaddr'', dest_stream = Inl ''no peer''\<rparr>) = Hang"
  using role_selection [of "\<lparr>port = 0, dest = ''/ip4/127.0.0.1/tcp/6666/p2p/QmA'', help = False\<rparr>"
        "\<lparr>keypair_err = None, host_err = None, listen_tcp = [Inr ''7777''], host_id = ''QmB'',
         host_addrs = [''/ip4/127.0.0.1/tcp/7777''], dest_maddr = Inr ''/ip4/127.0.0.1/tcp/6666/p2p/QmA'',
         dest_info = Inr (''QmA'', [''/ip4/127.0.0.1/tcp/6666'']), dest_stream = Inr 5\<rparr>"]
    role_selection [of "\<lparr>port = 6666, dest = [], help = False\<rparr>"
        "\<lparr>keypair_err = None, host_err = None, listen_tcp = [Inr ''6666''], host_id = ''QmA'',
         host_addrs = [''/ip4/127.0.0.1/tcp/6666''], dest_maddr = Inl ''empty multiaddr'',
         dest_info = Inl ''empty multiaddr'', dest_stream = Inl ''no peer''\<rparr>"]
  by simp

text \<open>
  Claim C9. In the listener's path, when no listen address yields a TCP port, the
  process panics right after the diagnostic: it has registered the handler, but it never
  displays an address and never comes to wait, so no inbound stream is handled.
\<close>

theorem listener_without_port_fails_fast:
  assumes "\<not> help fl" and "keypair_err ev = None" and "host_err ev = None" and "dest fl = []"
    and "\<forall>la \<in> set (listen_tcp ev). isl la"
  shows "main fl ev =
     ([Println ''-- Got peer ID'', GenerateKeyPair, Println ''-- Created RSA key pair'',
       New_host (port fl), Println ''-- Creating host object'', SetStreamHandler protocol,
       Console (''!! Unable to find local port '' @ [newline])],
      Panic ''Unable to find actual local port'')
    \<and> (\<forall>p. advertisement p (host_id ev) \<notin> set (fst (main fl ev)))
    \<and> (\<forall>inbound. run fl ev inbound = main fl ev)"
proof -
  from assms(5) have "find_port (listen_tcp ev) = []" by (rule find_port_none)
  with assms(1-4) have m: "main fl ev =
     ([Println ''-- Got peer ID'', GenerateKeyPair, Println ''-- Created RSA key pair'',
       New_host (port fl), Println ''-- Creating host object'', SetStreamHandler protocol,
       Console (''!! Unable to find local port '' @ [newline])],
      Panic ''Unable to find actual local port'')"
    by (simp add: main_shape listen_def after_def)
  then show ?thesis
    by (simp add: run_def advertisement_def Println_def)
qed

theorem listener_without_port_fails_fast_witness:
  "main \<lparr>port = 0, dest = [], help = False\<rparr>
     \<lparr>keypair_err = None, host_err = None, listen_tcp = [Inl ''protocol tcp not found in multiaddr''],
      host_id = ''QmA'', host_addrs = [], dest_maddr = Inl ''empty multiaddr'',
      dest_info = Inl ''empty multiaddr'', dest_stream = Inl ''no peer''\<rparr> =
     ([Println ''-- Got peer ID'', GenerateKeyPair, Println ''-- Created RSA key pair'',
       New_host 0, Println ''-- Creating host object'', SetStreamHandler protocol,
       Console (''!! Unable to find local port '' @ [newline])],
      Panic ''Unable to find actual local port'')"
  using listener_without_port_fails_fast [of "\<lparr>port = 0, dest = [], help = False\<rparr>"
     "\<lparr>keypair_err = None, host_err = None, listen_tcp = [Inl ''protocol tcp not found in multiaddr''],
      host_id = ''QmA'', host_addrs = [], dest_maddr = Inl ''empty multiaddr'',
      dest_info = Inl ''empty multiaddr'', dest_stream = Inl ''no peer''\<rparr>"]
  by simp



end
